theory Spec2Isabelle
  imports Main "HOL-Library.Multiset" "HOL-Library.Word"
begin

section \<open>JavaScript values used by the pages\<close>

text \<open>
  A text field of a JSON object is either absent (\<open>null\<close> or \<open>undefined\<close>, here
  \<open>None\<close>) or a string. A string is truthy when it is not empty; an absent value is
  falsy.
\<close>

type_synonym js_text = "string option"

definition truthy :: "js_text \<Rightarrow> bool" where
  "truthy t = (case t of None \<Rightarrow> False | Some s \<Rightarrow> s \<noteq> [])"

text \<open>The operator \<open>a || b\<close>: the left operand when it is truthy, the right one otherwise.\<close>

definition js_or :: "js_text \<Rightarrow> js_text \<Rightarrow> js_text" where
  "js_or a b = (if truthy a then a else b)"

text \<open>The idiom \<open>(t || "")\<close>, a string whatever \<open>t\<close> is.\<close>

definition or_empty :: "js_text \<Rightarrow> string" where
  "or_empty t = (case js_or t (Some []) of None \<Rightarrow> [] | Some s \<Rightarrow> s)"

text \<open>
  \<open>Array.prototype.join\<close>: the elements separated by \<open>sep\<close>; an element that is
  \<open>null\<close> or \<open>undefined\<close> contributes the empty string.
\<close>

definition join_elem :: "js_text \<Rightarrow> string" where
  "join_elem t = (case t of None \<Rightarrow> [] | Some s \<Rightarrow> s)"

fun js_join :: "string \<Rightarrow> js_text list \<Rightarrow> string" where
  "js_join sep [] = []"
| "js_join sep [x] = join_elem x"
| "js_join sep (x # y # ys) = join_elem x @ sep @ js_join sep (y # ys)"

text \<open>
  \<open>Array.prototype.sort\<close> with a comparator: a stable sort (ECMAScript 2019), written
  as an insertion sort that places \<open>x\<close> before the first \<open>y\<close> with \<open>cmp x y \<le> 0\<close>.
  The array is sorted in place, so the caller's array is left in this order too.
\<close>

fun js_insert :: "('a \<Rightarrow> 'a \<Rightarrow> int) \<Rightarrow> 'a \<Rightarrow> 'a list \<Rightarrow> 'a list" where
  "js_insert cmp x [] = [x]"
| "js_insert cmp x (y # ys) = (if cmp x y \<le> 0 then x # y # ys else y # js_insert cmp x ys)"

definition js_sort :: "('a \<Rightarrow> 'a \<Rightarrow> int) \<Rightarrow> 'a list \<Rightarrow> 'a list" where
  "js_sort cmp xs = foldr (js_insert cmp) xs []"

section \<open>Segments of a session (SessionDetailPage.jsx)\<close>

text \<open>
  A segment as the session-detail response carries it. Further fields of the JSON object
  live in the record's extension.
\<close>

record segment =
  segment_index :: int
  original_text :: js_text
  polished_text :: js_text
  enhanced_text :: js_text
  seg_status :: string

definition paragraph_sep :: string where
  "paragraph_sep = [CHR 0x0A, CHR 0x0A]"

definition by_segment_index :: "'a segment_scheme \<Rightarrow> 'a segment_scheme \<Rightarrow> int" where
  "by_segment_index a b = segment_index a - segment_index b"

text \<open>\<open>getFinalText\<close>: sort by \<open>segment_index\<close>, pick a text per segment, join.\<close>

definition getFinalText :: "'a segment_scheme list \<Rightarrow> string" where
  "getFinalText segs =
     js_join paragraph_sep
       (map (\<lambda>seg. js_or (js_or (enhanced_text seg) (polished_text seg)) (original_text seg))
          (js_sort by_segment_index segs))"

text \<open>\<open>getOriginalText\<close>: the same with the original text of every segment.\<close>

definition getOriginalText :: "'a segment_scheme list \<Rightarrow> string" where
  "getOriginalText segs =
     js_join paragraph_sep (map original_text (js_sort by_segment_index segs))"

text \<open>
  The contribution of one segment in the specification's words: the enhanced text if it
  is non-empty, otherwise the polished text if it is non-empty, otherwise the original
  source text.
\<close>

definition nonempty_text :: "js_text \<Rightarrow> bool" where
  "nonempty_text t = (t \<noteq> None \<and> t \<noteq> Some [])"

definition spec_contribution :: "'a segment_scheme \<Rightarrow> string" where
  "spec_contribution seg =
     (if nonempty_text (enhanced_text seg) then the (enhanced_text seg)
      else if nonempty_text (polished_text seg) then the (polished_text seg)
      else join_elem (original_text seg))"

text \<open>Joining strings with a separator between neighbours, as the specification says.\<close>

fun spec_join :: "string \<Rightarrow> string list \<Rightarrow> string" where
  "spec_join sep [] = []"
| "spec_join sep [x] = x"
| "spec_join sep (x # y # ys) = x @ sep @ spec_join sep (y # ys)"

section \<open>Effects of the pages\<close>

text \<open>
  The pages talk to the user through toasts, to the developer through the console, to
  the backend through API requests and to the router through navigation. Every such
  call is appended to the \<open>effects\<close> log of the page state, in program order. The
  toast texts are fixed strings of the source and appear here by name; a \<open>detail\<close>
  taken from an error response may be absent.
\<close>

type_synonym js_string = "16 word list"

text \<open>
  The toasts, by the line that shows them. In WorkspacePage.jsx: \<open>EnterText\<close> (206),
  \<open>TaskStarted\<close> (222), \<open>StartFailed\<close> with the error detail (226),
  \<open>RetryContinued\<close> with the message of the response (273) and \<open>RetryFailed\<close>
  with the error detail (277). In SessionDetailPage.jsx: \<open>LoadDetailFailed\<close> (106),
  \<open>TaskStopped\<close> (156) and \<open>StopFailed\<close> with the error detail (159).
\<close>

datatype notice =
    EnterText
  | TaskStarted
  | StartFailed js_text
  | RetryContinued js_text
  | RetryFailed js_text
  | TaskStopped
  | StopFailed js_text
  | LoadDetailFailed

datatype request =
    StartOptimization js_string string
  | RetryFailedSegments string
  | ListSessions
  | StopSession string
  | GetSessionDetail string

text \<open>
  The console messages, by the line that logs them: \<open>SegmentNotFound\<close> with the index
  (SessionDetailPage.jsx, 69), \<open>SseDataError\<close> (SessionDetailPage.jsx, 41),
  \<open>LoadSessionsError\<close> (WorkspacePage.jsx, 134) and \<open>RetryError\<close>
  (WorkspacePage.jsx, 276).
\<close>

datatype console_note =
    SegmentNotFound int
  | SseDataError
  | LoadSessionsError
  | RetryError

datatype effect =
    ToastSuccess notice
  | ToastError notice
  | ToastInfo js_text
  | ConsoleWarn console_note
  | ConsoleError console_note
  | ApiCall request
  | Navigate string

text \<open>An awaited API call either resolves with the response data or rejects.\<close>

datatype 'a api_result = Rejected js_text | Resolved 'a

record ui =
  effects :: "effect list"

definition emit :: "effect list \<Rightarrow> 'a ui_scheme \<Rightarrow> 'a ui_scheme" where
  "emit es st = st\<lparr>effects := effects st @ es\<rparr>"

record session =
  session_id :: string
  status :: string

section \<open>The session detail page (SessionDetailPage.jsx)\<close>

record detail_page = ui +
  sessionId :: string
  session :: "session option"
  segments :: "segment list"

text \<open>
  One parsed message of the event stream: \<open>data.type\<close>, \<open>data.segment_index\<close>,
  \<open>data.stage\<close>, \<open>data.content\<close> and \<open>data.message\<close>. The index is the integer the
  backend sends; it may be negative or beyond the loaded segments.
\<close>

record stream_data =
  ev_type :: string
  ev_segment_index :: int
  stage :: string
  content :: string
  message :: js_text

text \<open>
  \<open>newSegments[segmentIndex]\<close> is an object (truthy) exactly for an index inside the
  array and \<open>undefined\<close> for every other integer.
\<close>

definition segment_found :: "int \<Rightarrow> 'a list \<Rightarrow> bool" where
  "segment_found i xs = (0 \<le> i \<and> nat i < length xs)"

text \<open>
  Lines 73 to 85 of \<open>handleStreamUpdate\<close>: the copy of the segment with the delta
  appended to the text of the stage, then marked as processing.
\<close>

definition append_delta :: "stream_data \<Rightarrow> 'a segment_scheme \<Rightarrow> 'a segment_scheme" where
  "append_delta data seg =
     (if stage data = ''polish'' \<or> stage data = ''emotion_polish''
      then seg\<lparr>polished_text := Some (or_empty (polished_text seg) @ content data)\<rparr>
      else if stage data = ''enhance''
      then seg\<lparr>enhanced_text := Some (or_empty (enhanced_text seg) @ content data)\<rparr>
      else seg)"

definition mark_processing :: "'a segment_scheme \<Rightarrow> 'a segment_scheme" where
  "mark_processing seg =
     (if seg_status seg \<noteq> ''processing'' then seg\<lparr>seg_status := ''processing''\<rparr> else seg)"

text \<open>The updater passed to \<open>setSegments\<close> (lines 61 to 89).\<close>

definition update_segments :: "stream_data \<Rightarrow> 'a segment_scheme list \<Rightarrow> 'a segment_scheme list" where
  "update_segments data prevSegments =
     (let segmentIndex = ev_segment_index data
      in if \<not> segment_found segmentIndex prevSegments then prevSegments
         else prevSegments[nat segmentIndex :=
                mark_processing (append_delta data (prevSegments ! nat segmentIndex))])"

text \<open>The updater passed to \<open>setSession\<close> (lines 92 to 97).\<close>

definition update_session :: "session option \<Rightarrow> session option" where
  "update_session prev =
     (case prev of
        None \<Rightarrow> None
      | Some s \<Rightarrow> if status s \<noteq> ''processing'' then Some (s\<lparr>status := ''processing''\<rparr>) else Some s)"

definition handleStreamUpdate :: "stream_data \<Rightarrow> detail_page \<Rightarrow> detail_page" where
  "handleStreamUpdate data st =
     (let warn = (if segment_found (ev_segment_index data) (segments st) then []
                  else [ConsoleWarn (SegmentNotFound (ev_segment_index data))])
      in emit warn
           (st\<lparr>segments := update_segments data (segments st),
               session := update_session (session st)\<rparr>))"

text \<open>
  Exceptions of the JavaScript code, as values.
\<close>

datatype js_error = TypeError | RangeError

text \<open>
  \<open>toast\<close> is the default export of the package react-hot-toast, which is not part
  of the sources. The package gives it the methods listed here and no method \<open>info\<close>,
  so the call \<open>toast.info(data.message)\<close> of line 38 calls \<open>undefined\<close> and throws a
  \<open>TypeError\<close> before anything is shown.
\<close>

definition toast_methods :: "string list" where
  "toast_methods =
     [''success'', ''error'', ''loading'', ''custom'', ''dismiss'', ''remove'', ''promise'']"

definition toast_info :: "js_text \<Rightarrow> 'a ui_scheme \<Rightarrow> js_error + 'a ui_scheme" where
  "toast_info msg st =
     (if ''info'' \<in> set toast_methods then Inr (st\<lparr>effects := effects st @ [ToastInfo msg]\<rparr>)
      else Inl TypeError)"

text \<open>
  \<open>eventSource.onmessage\<close> (lines 32 to 43). \<open>parsed\<close> is \<open>None\<close> when
  \<open>JSON.parse\<close> throws. The \<open>catch\<close> clause turns every exception of the \<open>try\<close>
  block into the console error of line 41.
\<close>

definition onmessage :: "stream_data option \<Rightarrow> detail_page \<Rightarrow> detail_page" where
  "onmessage parsed st =
     (case parsed of
        None \<Rightarrow> st\<lparr>effects := effects st @ [ConsoleError SseDataError]\<rparr>
      | Some data \<Rightarrow>
          if ev_type data = ''content'' then handleStreamUpdate data st
          else if ev_type data = ''history_compressed''
          then (case toast_info (message data) st of
                  Inr shown \<Rightarrow> shown
                | Inl _ \<Rightarrow> st\<lparr>effects := effects st @ [ConsoleError SseDataError]\<rparr>)
          else st)"

text \<open>A sequence of parsed messages of the event stream, handled in delivery order.\<close>

definition receive_all :: "stream_data list \<Rightarrow> detail_page \<Rightarrow> detail_page" where
  "receive_all evs st = foldl (\<lambda>s data. onmessage (Some data) s) st evs"

text \<open>
  The setSegments updater for a \<open>segment_index\<close> that need not be a number. The source
  reads \<open>data.segment_index\<close> once (line 63) and uses it as a property key of the copied
  array. For an integer the key is an array index, and the updater is \<open>update_segments\<close>.
  For the string \<open>"length"\<close> the lookup of line 66 yields the number of elements, which
  is falsy only for the empty array; otherwise the guard passes, the spread of line 73
  yields an empty object, and the write-back of line 87 assigns that object to the
  array's \<open>length\<close>, which throws a \<open>RangeError\<close>. Other strings that name a property
  of arrays pass the guard as well and are not modelled.
\<close>

datatype js_index = Num int | LengthName

definition update_segments_at ::
  "js_index \<Rightarrow> stream_data \<Rightarrow> 'a segment_scheme list \<Rightarrow> js_error + 'a segment_scheme list" where
  "update_segments_at segmentIndex data prevSegments =
     (case segmentIndex of
        Num i \<Rightarrow> Inr (update_segments (data\<lparr>ev_segment_index := i\<rparr>) prevSegments)
      | LengthName \<Rightarrow> if length prevSegments = 0 then Inr prevSegments else Inl RangeError)"

text \<open>
  \<open>loadSessionDetail\<close>: the response carries the session and, possibly, its segments
  (\<open>response.data.segments || []\<close>).
\<close>

definition loadSessionDetail ::
  "(session \<times> segment list option) api_result \<Rightarrow> detail_page \<Rightarrow> detail_page" where
  "loadSessionDetail resp st =
     (let st1 = emit [ApiCall (GetSessionDetail (sessionId st))] st
      in case resp of
           Resolved (s, segs) \<Rightarrow>
             st1\<lparr>session := Some s, segments := (case segs of None \<Rightarrow> [] | Some xs \<Rightarrow> xs)\<rparr>
         | Rejected _ \<Rightarrow> emit [ToastError LoadDetailFailed, Navigate ''/workspace''] st1)"

text \<open>
  \<open>handleStop\<close>: \<open>confirmed\<close> is the answer to \<open>window.confirm\<close>, \<open>stopped\<close> the
  outcome of the stop request and \<open>detail\<close> the outcome of the reload that follows a
  successful stop.
\<close>

definition handleStop ::
  "bool \<Rightarrow> unit api_result \<Rightarrow> (session \<times> segment list option) api_result
     \<Rightarrow> detail_page \<Rightarrow> detail_page" where
  "handleStop confirmed stopped detail st =
     (if \<not> confirmed then st
      else let st1 = emit [ApiCall (StopSession (sessionId st))] st
           in case stopped of
                Resolved _ \<Rightarrow> loadSessionDetail detail (emit [ToastSuccess TaskStopped] st1)
              | Rejected d \<Rightarrow> emit [ToastError (StopFailed d)] st1)"

text \<open>
  The action area of the navigation bar (lines 215 to 256), as the list of the elements
  it renders for a session status; while the session is not loaded the page renders
  only a spinner.
\<close>

datatype nav_item = CompletedBadge | ExportButton | FailedBadge | StoppedBadge | StopButton

definition nav_items :: "string \<Rightarrow> nav_item list" where
  "nav_items st =
     (if st = ''completed'' then [CompletedBadge, ExportButton] else [])
     @ (if st = ''failed'' then [FailedBadge] else [])
     @ (if st = ''stopped'' then [StoppedBadge] else [])
     @ (if st = ''processing'' \<or> st = ''queued'' then [StopButton] else [])"

definition render_nav :: "detail_page \<Rightarrow> nav_item list option" where
  "render_nav st = (case session st of None \<Rightarrow> None | Some s \<Rightarrow> Some (nav_items (status s)))"

text \<open>How many segments of a list are in status processing.\<close>

definition count_processing :: "'a segment_scheme list \<Rightarrow> nat" where
  "count_processing segs = length (filter (\<lambda>s. seg_status s = ''processing'') segs)"

text \<open>
  The content events of a sequence of messages that address the segment at position
  \<open>p\<close>, those of them that go to its polished and to its enhanced text, and the
  concatenation of their payloads.
\<close>

definition addressed :: "nat \<Rightarrow> stream_data list \<Rightarrow> bool" where
  "addressed p evs =
     list_ex (\<lambda>e. ev_type e = ''content'' \<and> ev_segment_index e = int p) evs"

definition polish_events :: "nat \<Rightarrow> stream_data list \<Rightarrow> stream_data list" where
  "polish_events p evs =
     filter (\<lambda>e. ev_type e = ''content'' \<and> ev_segment_index e = int p
                  \<and> (stage e = ''polish'' \<or> stage e = ''emotion_polish'')) evs"

definition enhance_events :: "nat \<Rightarrow> stream_data list \<Rightarrow> stream_data list" where
  "enhance_events p evs =
     filter (\<lambda>e. ev_type e = ''content'' \<and> ev_segment_index e = int p
                  \<and> stage e = ''enhance'') evs"

definition polish_deltas :: "nat \<Rightarrow> stream_data list \<Rightarrow> string" where
  "polish_deltas p evs = concat (map content (polish_events p evs))"

definition enhance_deltas :: "nat \<Rightarrow> stream_data list \<Rightarrow> string" where
  "enhance_deltas p evs = concat (map content (enhance_events p evs))"

section \<open>The workspace page (WorkspacePage.jsx, in the sources as unnamed/part_003)\<close>

text \<open>
  The submitted text is a JavaScript string, a list of UTF-16 code units.
  \<open>String.prototype.trim\<close> strips the code units that ECMAScript calls WhiteSpace or
  LineTerminator from both ends.
\<close>

definition js_whitespace :: "16 word \<Rightarrow> bool" where
  "js_whitespace c =
     (c \<in> set [0x09, 0x0A, 0x0B, 0x0C, 0x0D, 0x20, 0xA0, 0x1680,
                0x2028, 0x2029, 0x202F, 0x205F, 0x3000, 0xFEFF]
      \<or> (0x2000 \<le> c \<and> c \<le> 0x200A))"

definition js_trim :: "js_string \<Rightarrow> js_string" where
  "js_trim t = rev (dropWhile js_whitespace (rev (dropWhile js_whitespace t)))"

record workspace = ui +
  input_text :: js_string
  processingMode :: string
  sessions :: "session list"
  activeSession :: "string option"
  isSubmitting :: bool
  isLoadingSessions :: bool

text \<open>
  \<open>loadSessions\<close>, in two halves: up to the request, and from its outcome on. A
  handler that does not await the call runs only the first half itself.
\<close>

definition loadSessions_begin :: "workspace \<Rightarrow> workspace" where
  "loadSessions_begin st = emit [ApiCall ListSessions] (st\<lparr>isLoadingSessions := True\<rparr>)"

definition loadSessions_end :: "session list api_result \<Rightarrow> workspace \<Rightarrow> workspace" where
  "loadSessions_end resp st =
     (let st1 =
        (case resp of
           Resolved data \<Rightarrow>
             (case find (\<lambda>s. status s = ''processing'' \<or> status s = ''queued'') data of
                Some processing \<Rightarrow>
                  st\<lparr>sessions := data, activeSession := Some (session_id processing)\<rparr>
              | None \<Rightarrow> st\<lparr>sessions := data\<rparr>)
         | Rejected _ \<Rightarrow> emit [ConsoleError LoadSessionsError] st)
      in st1\<lparr>isLoadingSessions := False\<rparr>)"

definition loadSessions :: "session list api_result \<Rightarrow> workspace \<Rightarrow> workspace" where
  "loadSessions resp st = loadSessions_end resp (loadSessions_begin st)"

text \<open>
  \<open>handleStartOptimization\<close> (lines 204 to 230); \<open>started\<close> is the outcome of the
  start request, which resolves with the new session's id.
\<close>

definition handleStartOptimization :: "string api_result \<Rightarrow> workspace \<Rightarrow> workspace" where
  "handleStartOptimization started st =
     (if js_trim (input_text st) = [] then emit [ToastError EnterText] st
      else if isSubmitting st then st
      else
        let st1 = emit [ApiCall (StartOptimization (input_text st) (processingMode st))]
                    (st\<lparr>isSubmitting := True\<rparr>);
            st2 = (case started of
                     Resolved sid \<Rightarrow>
                       loadSessions_begin
                         ((emit [ToastSuccess TaskStarted] (st1\<lparr>activeSession := Some sid\<rparr>))
                            \<lparr>input_text := []\<rparr>)
                   | Rejected d \<Rightarrow> emit [ToastError (StartFailed d)] st1)
        in st2\<lparr>isSubmitting := False\<rparr>)"

text \<open>
  \<open>handleRetrySegment\<close> (lines 260 to 279); \<open>confirmRetry\<close> is the answer to
  \<open>window.confirm\<close>, \<open>retried\<close> the outcome of the retry request (its optional
  message), \<open>listed\<close> the outcome of the awaited \<open>loadSessions\<close>.
\<close>

definition handleRetrySegment ::
  "bool \<Rightarrow> js_text api_result \<Rightarrow> session list api_result \<Rightarrow> session
     \<Rightarrow> workspace \<Rightarrow> workspace" where
  "handleRetrySegment confirmRetry retried listed sess st =
     (if status sess \<noteq> ''failed'' then st
      else if \<not> confirmRetry then st
      else
        let st1 = emit [ApiCall (RetryFailedSegments (session_id sess))] st
        in case retried of
             Resolved msg \<Rightarrow>
               loadSessions listed
                 (emit [ToastSuccess (RetryContinued msg)]
                    (st1\<lparr>activeSession := Some (session_id sess)\<rparr>))
           | Rejected d \<Rightarrow> emit [ConsoleError RetryError, ToastError (RetryFailed d)] st1)"

text \<open>
  \<open>SessionItem.handleRetry\<close> (lines 17 to 22): the click handler of the retry button of
  one list item, given the \<open>onRetry\<close> callback of its parent.
\<close>

definition SessionItem_handleRetry ::
  "(session \<Rightarrow> workspace \<Rightarrow> workspace) \<Rightarrow> session \<Rightarrow> workspace \<Rightarrow> workspace" where
  "SessionItem_handleRetry onRetry sess st =
     (if status sess = ''failed'' then onRetry sess st else st)"

text \<open>The buttons of one list item (lines 80 to 96).\<close>

datatype item_button = RetryButton | DeleteButton

definition item_buttons :: "string \<Rightarrow> item_button list" where
  "item_buttons st = (if st = ''failed'' then [RetryButton] else []) @ [DeleteButton]"

section \<open>The admission controller\<close>

text \<open>
  Modelled from the spec: the admission controller and its queue belong to the backend,
  which is not among the sources (only the pages that display
  \<open>current_users/max_users\<close> and the queue length are). The model follows section 4.1 of
  the specification: the controller holds the configured ceiling, the sessions that
  occupy a slot (status processing) and the FIFO wait queue.
\<close>

record admission =
  max_count :: nat
  active :: "string list"
  queue :: "string list"

text \<open>
  Modelled from the spec: \<open>submit\<close> grants a slot when fewer slots than the ceiling are
  occupied and appends the session to the wait queue otherwise.
\<close>

definition submit :: "string \<Rightarrow> admission \<Rightarrow> admission" where
  "submit s a =
     (if length (active a) < max_count a then a\<lparr>active := active a @ [s]\<rparr>
      else a\<lparr>queue := queue a @ [s]\<rparr>)"

text \<open>
  Modelled from the spec: \<open>release\<close> of a session that holds a slot frees the slot and
  promotes the head of the wait queue, if any.
\<close>

definition release :: "string \<Rightarrow> admission \<Rightarrow> admission" where
  "release s a =
     (if s \<in> set (active a) then
        (case queue a of
           [] \<Rightarrow> a\<lparr>active := remove1 s (active a)\<rparr>
         | h # t \<Rightarrow> a\<lparr>active := remove1 s (active a) @ [h], queue := t\<rparr>)
      else a)"

text \<open>
  Modelled from the spec: a queued session cancelled by its owner leaves the queue and
  its ticket is discarded.
\<close>

definition cancel :: "string \<Rightarrow> admission \<Rightarrow> admission" where
  "cancel s a = a\<lparr>queue := remove1 s (queue a)\<rparr>"

text \<open>
  Modelled from the spec: changing the ceiling at runtime triggers a scan that promotes
  queued sessions into the slots that became free, and never pre-empts a session that is
  already active.
\<close>

definition set_ceiling :: "nat \<Rightarrow> admission \<Rightarrow> admission" where
  "set_ceiling m a =
     (let k = min (m - length (active a)) (length (queue a))
      in a\<lparr>max_count := m, active := active a @ take k (queue a), queue := drop k (queue a)\<rparr>)"

datatype admission_op = Submit string | Release string | Cancel string | SetCeiling nat

fun apply_op :: "admission_op \<Rightarrow> admission \<Rightarrow> admission" where
  "apply_op (Submit s) a = submit s a"
| "apply_op (Release s) a = release s a"
| "apply_op (Cancel s) a = cancel s a"
| "apply_op (SetCeiling m) a = set_ceiling m a"

definition run_ops :: "admission_op list \<Rightarrow> admission \<Rightarrow> admission" where
  "run_ops ops a = foldl (\<lambda>a op. apply_op op a) a ops"

definition within_ceiling :: "admission \<Rightarrow> bool" where
  "within_ceiling a = (length (active a) \<le> max_count a)"

text \<open>
  A run in which the ceiling is never set below the number of sessions that are
  processing at that moment.
\<close>

fun ceiling_respected :: "admission_op list \<Rightarrow> admission \<Rightarrow> bool" where
  "ceiling_respected [] a = True"
| "ceiling_respected (op # ops) a =
     ((case op of SetCeiling m \<Rightarrow> length (active a) \<le> m | _ \<Rightarrow> True)
      \<and> ceiling_respected ops (apply_op op a))"

definition idle_controller :: "nat \<Rightarrow> admission" where
  "idle_controller m = \<lparr>max_count = m, active = [], queue = []\<rparr>"

section \<open>The session state machine\<close>

text \<open>
  Modelled from the spec: the session state machine is backend code, which is not among
  the sources. Section 3 of the specification gives a session the lifecycle status
  queued, processing, completed, failed or stopped, and a segment the status pending,
  processing, done, skipped or failed.
\<close>

datatype session_state = Queued | Running | Completed | SessionFailed | Stopped

datatype segment_state = Pending | InProcess | Done | Skipped | SegmentFailed

definition status_name :: "session_state \<Rightarrow> string" where
  "status_name s =
     (case s of Queued \<Rightarrow> ''queued'' | Running \<Rightarrow> ''processing'' | Completed \<Rightarrow> ''completed''
      | SessionFailed \<Rightarrow> ''failed'' | Stopped \<Rightarrow> ''stopped'')"

text \<open>
  Modelled from the spec: a stop request takes a processing session to stopped (section
  4.2), and cancelling a queued session is the same first-class stopped state (sections
  4.1 and 7); a session that is completed, failed or stopped is immutable.
\<close>

definition stop_transition :: "session_state \<Rightarrow> session_state" where
  "stop_transition s = (if s = Running \<or> s = Queued then Stopped else s)"

text \<open>
  Modelled from the spec: a session holds its segments in index order (each with the
  length of its source text and its status), the cursor (the index of the next segment
  to process) and the skip threshold.
\<close>

record engine =
  eng_status :: session_state
  eng_segments :: "(nat \<times> segment_state) list"
  cursor :: nat
  skip_threshold :: nat

definition set_state :: "nat \<Rightarrow> segment_state \<Rightarrow> engine \<Rightarrow> engine" where
  "set_state i s e = e\<lparr>eng_segments := (eng_segments e)[i := (fst (eng_segments e ! i), s)]\<rparr>"

definition first_unfinished :: "(nat \<times> segment_state) list \<Rightarrow> nat" where
  "first_unfinished segs = length (takeWhile (\<lambda>x. snd x = Done \<or> snd x = Skipped) segs)"

text \<open>
  Modelled from the spec: the steps of one session (section 4.2). \<open>Admit\<close> grants the
  slot. \<open>Advance\<close> is the worker at the segment under the cursor: it completes the
  session after the last segment, passes over a segment that is done or skipped, marks a
  segment below the skip threshold as skipped, and otherwise hands the segment to the
  stage executor and waits (the segment is processing). \<open>StageSucceeded\<close> and
  \<open>StageFailed\<close> are the two outcomes of that call: the segment becomes done and the
  cursor moves on, or the segment and the session become failed. \<open>StopRequest\<close> stops
  the session and marks nothing done. \<open>RetryRequest\<close> takes a failed session back to
  processing at its first segment that is neither done nor skipped.
\<close>

datatype engine_event =
  Admit | Advance | StageSucceeded | StageFailed | StopRequest | RetryRequest

fun engine_step :: "engine_event \<Rightarrow> engine \<Rightarrow> engine" where
  "engine_step Admit e = (if eng_status e = Queued then e\<lparr>eng_status := Running\<rparr> else e)"
| "engine_step Advance e =
     (if eng_status e \<noteq> Running then e
      else if length (eng_segments e) \<le> cursor e then e\<lparr>eng_status := Completed\<rparr>
      else if snd (eng_segments e ! cursor e) = InProcess then e
      else if snd (eng_segments e ! cursor e) = Done \<or> snd (eng_segments e ! cursor e) = Skipped
      then e\<lparr>cursor := cursor e + 1\<rparr>
      else if fst (eng_segments e ! cursor e) < skip_threshold e
      then (set_state (cursor e) Skipped e)\<lparr>cursor := cursor e + 1\<rparr>
      else set_state (cursor e) InProcess e)"
| "engine_step StageSucceeded e =
     (if eng_status e = Running \<and> cursor e < length (eng_segments e)
         \<and> snd (eng_segments e ! cursor e) = InProcess
      then (set_state (cursor e) Done e)\<lparr>cursor := cursor e + 1\<rparr>
      else e)"
| "engine_step StageFailed e =
     (if eng_status e = Running \<and> cursor e < length (eng_segments e)
         \<and> snd (eng_segments e ! cursor e) = InProcess
      then (set_state (cursor e) SegmentFailed e)\<lparr>eng_status := SessionFailed\<rparr>
      else e)"
| "engine_step StopRequest e = e\<lparr>eng_status := stop_transition (eng_status e)\<rparr>"
| "engine_step RetryRequest e =
     (if eng_status e = SessionFailed
      then e\<lparr>eng_status := Running, cursor := first_unfinished (eng_segments e)\<rparr>
      else e)"

definition run_engine :: "engine_event list \<Rightarrow> engine \<Rightarrow> engine" where
  "run_engine evs e = foldl (\<lambda>e ev. engine_step ev e) e evs"

text \<open>Modelled from the spec: a session as its submission creates it.\<close>

definition new_session :: "nat list \<Rightarrow> nat \<Rightarrow> engine" where
  "new_session lens threshold =
     \<lparr>eng_status = Queued, eng_segments = map (\<lambda>n. (n, Pending)) lens, cursor = 0,
      skip_threshold = threshold\<rparr>"

definition in_process_count :: "engine \<Rightarrow> nat" where
  "in_process_count e = length (filter (\<lambda>x. snd x = InProcess) (eng_segments e))"

text \<open>
  The invariant of the state machine: a segment is processing only under the cursor, and
  only in a session that is processing or was stopped.
\<close>

definition in_process_at_cursor :: "engine \<Rightarrow> bool" where
  "in_process_at_cursor e =
     (\<forall>j < length (eng_segments e). snd (eng_segments e ! j) = InProcess
        \<longrightarrow> j = cursor e \<and> (eng_status e = Running \<or> eng_status e = Stopped))"

section \<open>Example states\<close>

text \<open>
  A loaded session of two untouched segments, a content event, a history-compression
  event, and a workspace whose text holds a space, an ideographic space and a line feed.
\<close>

definition demo_segment :: "int \<Rightarrow> string \<Rightarrow> segment" where
  "demo_segment i txt =
     \<lparr>segment_index = i, original_text = Some txt, polished_text = None,
      enhanced_text = None, seg_status = ''pending''\<rparr>"

definition demo_page :: detail_page where
  "demo_page =
     \<lparr>effects = [], sessionId = ''s1'',
      session = Some \<lparr>session_id = ''s1'', status = ''processing''\<rparr>,
      segments = [demo_segment 0 ''Intro'', demo_segment 1 ''Body'']\<rparr>"

definition demo_delta :: "int \<Rightarrow> string \<Rightarrow> string \<Rightarrow> stream_data" where
  "demo_delta i stg txt =
     \<lparr>ev_type = ''content'', ev_segment_index = i, stage = stg, content = txt,
      message = None\<rparr>"

definition demo_compressed :: stream_data where
  "demo_compressed =
     \<lparr>ev_type = ''history_compressed'', ev_segment_index = 0, stage = [], content = [],
      message = Some ''history compressed''\<rparr>"

definition demo_workspace :: "js_string \<Rightarrow> workspace" where
  "demo_workspace t =
     \<lparr>effects = [], input_text = t, processingMode = ''paper_polish_enhance'',
      sessions = [], activeSession = None, isSubmitting = False,
      isLoadingSessions = False\<rparr>"

definition demo_session :: "string \<Rightarrow> session" where
  "demo_session st = \<lparr>session_id = ''s1'', status = st\<rparr>"

section \<open>Sorting and joining\<close>

lemma js_insert_is_insort:
  "js_insert by_segment_index x xs = insort_key segment_index x xs"
  by (induction xs) (auto simp: by_segment_index_def)

lemma js_sort_is_sort_key:
  "js_sort by_segment_index xs = sort_key segment_index xs"
  unfolding js_sort_def sort_key_def
  by (induction xs) (simp_all add: js_insert_is_insort)

lemma js_join_map:
  "js_join sep (map f xs) = spec_join sep (map (\<lambda>x. join_elem (f x)) xs)"
  by (induction xs rule: induct_list012) simp_all

lemma picked_text_is_contribution:
  "join_elem (js_or (js_or (enhanced_text seg) (polished_text seg)) (original_text seg))
     = spec_contribution seg"
  by (cases "enhanced_text seg"; cases "polished_text seg")
     (auto simp: js_or_def truthy_def spec_contribution_def nonempty_text_def join_elem_def)

section \<open>The assembled output\<close>

text \<open>
  C1. The final text is the segments in ascending \<open>segment_index\<close>, each giving its
  enhanced text if non-empty, else its polished text if non-empty, else its original
  text, joined by a blank line. The sorted list is ascending in the index, holds the
  same segments, and keeps segments of equal index in the order they had, so the index
  alone fixes the order; a segment without stage output appears as its original text.
\<close>

theorem getFinalText_sorted_contributions:
  "getFinalText segs =
     spec_join paragraph_sep (map spec_contribution (sort_key segment_index segs))
   \<and> sorted (map segment_index (sort_key segment_index segs))
   \<and> mset (sort_key segment_index segs) = mset segs
   \<and> filter (\<lambda>s. segment_index s = k) (sort_key segment_index segs)
       = filter (\<lambda>s. segment_index s = k) segs"
  by (simp add: getFinalText_def js_sort_is_sort_key js_join_map picked_text_is_contribution
      sort_key_stable)

text \<open>Three segments out of order: a skipped one, an enhanced one and one with an empty
  enhanced text.\<close>

theorem getFinalText_witness:
  "getFinalText
     [\<lparr>segment_index = 2, original_text = Some ''c'', polished_text = Some ''C'',
        enhanced_text = Some [], seg_status = ''done''\<rparr>,
      \<lparr>segment_index = 0, original_text = Some ''a'', polished_text = None,
        enhanced_text = None, seg_status = ''skipped''\<rparr>,
      \<lparr>segment_index = 1, original_text = Some ''b'', polished_text = Some ''B'',
        enhanced_text = Some ''BB'', seg_status = ''done''\<rparr>]
   = ''a'' @ paragraph_sep @ ''BB'' @ paragraph_sep @ ''C''"
  using getFinalText_sorted_contributions
    [of "[\<lparr>segment_index = 2, original_text = Some ''c'', polished_text = Some ''C'',
        enhanced_text = Some [], seg_status = ''done''\<rparr>,
      \<lparr>segment_index = 0, original_text = Some ''a'', polished_text = None,
        enhanced_text = None, seg_status = ''skipped''\<rparr>,
      \<lparr>segment_index = 1, original_text = Some ''b'', polished_text = Some ''B'',
        enhanced_text = Some ''BB'', seg_status = ''done''\<rparr>]"]
  by (simp add: spec_contribution_def nonempty_text_def join_elem_def)

section \<open>Content events on the segment list\<close>

lemma segments_handleStreamUpdate:
  "segments (handleStreamUpdate data st) = update_segments data (segments st)"
  by (simp add: handleStreamUpdate_def emit_def Let_def)

lemma length_update_segments:
  "length (update_segments data segs) = length segs"
  by (simp add: update_segments_def Let_def)

lemma nth_update_segments_other:
  "int j \<noteq> ev_segment_index data \<Longrightarrow> update_segments data segs ! j = segs ! j"
  by (auto simp: update_segments_def Let_def segment_found_def)

lemma nth_update_segments_hit:
  "p < length segs \<Longrightarrow> ev_segment_index data = int p \<Longrightarrow>
   update_segments data segs ! p = mark_processing (append_delta data (segs ! p))"
  by (simp add: update_segments_def Let_def segment_found_def)

section \<open>The frame of a content event\<close>

lemma mark_append_frame:
  fixes seg :: "'a segment_scheme" and data :: stream_data
  defines "seg' \<equiv> mark_processing (append_delta data seg)"
  shows "seg' = seg\<lparr>polished_text := polished_text seg', enhanced_text := enhanced_text seg',
                     seg_status := seg_status seg'\<rparr>"
    and "polished_text seg' = polished_text seg \<or> enhanced_text seg' = enhanced_text seg"
  unfolding seg'_def
  by (auto simp: mark_processing_def append_delta_def)

lemma update_segments_nth_frame:
  fixes segs :: "'a segment_scheme list" and data :: stream_data
  assumes "j < length segs"
  defines "seg' \<equiv> update_segments data segs ! j"
  shows "seg' = (segs ! j)\<lparr>polished_text := polished_text seg', enhanced_text := enhanced_text seg',
                     seg_status := seg_status seg'\<rparr>"
    and "polished_text seg' = polished_text (segs ! j) \<or> enhanced_text seg' = enhanced_text (segs ! j)"
proof -
  show "seg' = (segs ! j)\<lparr>polished_text := polished_text seg', enhanced_text := enhanced_text seg',
                     seg_status := seg_status seg'\<rparr>"
  proof (cases "ev_segment_index data = int j")
    case True
    then show ?thesis
      unfolding seg'_def using assms(1) mark_append_frame(1) [of data "segs ! j"]
      by (simp add: nth_update_segments_hit)
  next
    case False
    then show ?thesis
      unfolding seg'_def by (simp add: nth_update_segments_other)
  qed
  show "polished_text seg' = polished_text (segs ! j) \<or> enhanced_text seg' = enhanced_text (segs ! j)"
  proof (cases "ev_segment_index data = int j")
    case True
    then show ?thesis
      unfolding seg'_def using assms(1) mark_append_frame(2) [of data "segs ! j"]
      by (simp add: nth_update_segments_hit)
  next
    case False
    then show ?thesis
      unfolding seg'_def by (simp add: nth_update_segments_other)
  qed
qed

text \<open>
  C9. A content event keeps the number of segments, leaves every segment at another
  position as it was, and changes of the addressed segment at most one of
  \<open>polished_text\<close> and \<open>enhanced_text\<close>, and its status; \<open>original_text\<close>,
  \<open>segment_index\<close> and every further field of every segment stay as they were.
\<close>

theorem content_event_frame:
  "length (segments (handleStreamUpdate data st)) = length (segments st)
   \<and> (\<forall>j < length (segments st).
        (int j \<noteq> ev_segment_index data
           \<longrightarrow> segments (handleStreamUpdate data st) ! j = segments st ! j)
        \<and> segments (handleStreamUpdate data st) ! j
          = (segments st ! j)
              \<lparr>polished_text := polished_text (segments (handleStreamUpdate data st) ! j),
               enhanced_text := enhanced_text (segments (handleStreamUpdate data st) ! j),
               seg_status := seg_status (segments (handleStreamUpdate data st) ! j)\<rparr>
        \<and> (polished_text (segments (handleStreamUpdate data st) ! j)
             = polished_text (segments st ! j)
           \<or> enhanced_text (segments (handleStreamUpdate data st) ! j)
             = enhanced_text (segments st ! j))
        \<and> original_text (segments (handleStreamUpdate data st) ! j)
             = original_text (segments st ! j)
        \<and> segment_index (segments (handleStreamUpdate data st) ! j)
             = segment_index (segments st ! j))"
proof (intro conjI allI impI)
  show "length (segments (handleStreamUpdate data st)) = length (segments st)"
    by (simp add: segments_handleStreamUpdate length_update_segments)
next
  fix j assume "int j \<noteq> ev_segment_index data"
  then show "segments (handleStreamUpdate data st) ! j = segments st ! j"
    by (simp add: segments_handleStreamUpdate nth_update_segments_other)
next
  fix j assume j: "j < length (segments st)"
  let ?s = "segments (handleStreamUpdate data st) ! j"
  show eq: "?s = (segments st ! j)\<lparr>polished_text := polished_text ?s,
               enhanced_text := enhanced_text ?s, seg_status := seg_status ?s\<rparr>"
    using update_segments_nth_frame(1) [OF j, of data]
    by (simp add: segments_handleStreamUpdate)
  show "polished_text ?s = polished_text (segments st ! j)
           \<or> enhanced_text ?s = enhanced_text (segments st ! j)"
    using update_segments_nth_frame(2) [OF j, of data]
    by (simp add: segments_handleStreamUpdate)
  show "original_text ?s = original_text (segments st ! j)"
    by (subst eq) simp
  show "segment_index ?s = segment_index (segments st ! j)"
    by (subst eq) simp
qed

theorem content_event_frame_witness:
  "segments (handleStreamUpdate (demo_delta 0 ''polish'' ''x'') demo_page) ! 1
     = segments demo_page ! 1
   \<and> original_text (segments (handleStreamUpdate (demo_delta 0 ''polish'' ''x'') demo_page) ! 0)
     = Some ''Intro''
   \<and> segment_index (segments (handleStreamUpdate (demo_delta 0 ''polish'' ''x'') demo_page) ! 0)
     = 0"
  using content_event_frame [where st = demo_page and data = "demo_delta 0 ''polish'' ''x''"]
  by (simp add: demo_page_def demo_delta_def demo_segment_def)

section \<open>Messages of the event stream on the segment list\<close>

lemma segments_onmessage:
  "segments (onmessage (Some data) st)
     = (if ev_type data = ''content'' then update_segments data (segments st) else segments st)"
  by (simp add: onmessage_def toast_info_def toast_methods_def segments_handleStreamUpdate)

lemma segments_receive_all:
  "segments (receive_all evs st)
     = foldl (\<lambda>s data. if ev_type data = ''content'' then update_segments data s else s)
         (segments st) evs"
  unfolding receive_all_def
  by (induction evs arbitrary: st) (simp_all add: segments_onmessage)

lemma or_empty_cases:
  "or_empty t = (case t of None \<Rightarrow> [] | Some s \<Rightarrow> s)"
  by (cases t) (auto simp: or_empty_def js_or_def truthy_def)

lemma step_polished:
  assumes "p < length segs"
  shows "polished_text ((if ev_type e = ''content'' then update_segments e segs else segs) ! p)
     = (if polish_events p [e] = [] then polished_text (segs ! p)
        else Some ((case polished_text (segs ! p) of None \<Rightarrow> [] | Some s \<Rightarrow> s) @ content e))"
proof (cases "ev_type e = ''content'' \<and> ev_segment_index e = int p")
  case True
  then show ?thesis
    using assms
    by (auto simp: polish_events_def nth_update_segments_hit mark_processing_def
        append_delta_def or_empty_cases)
next
  case False
  then show ?thesis
    by (auto simp: polish_events_def nth_update_segments_other)
qed

lemma step_enhanced:
  assumes "p < length segs"
  shows "enhanced_text ((if ev_type e = ''content'' then update_segments e segs else segs) ! p)
     = (if enhance_events p [e] = [] then enhanced_text (segs ! p)
        else Some ((case enhanced_text (segs ! p) of None \<Rightarrow> [] | Some s \<Rightarrow> s) @ content e))"
proof (cases "ev_type e = ''content'' \<and> ev_segment_index e = int p")
  case True
  then show ?thesis
    using assms
    by (auto simp: enhance_events_def nth_update_segments_hit mark_processing_def
        append_delta_def or_empty_cases)
next
  case False
  then show ?thesis
    by (auto simp: enhance_events_def nth_update_segments_other)
qed

lemma step_status:
  assumes "p < length segs"
  shows "seg_status ((if ev_type e = ''content'' then update_segments e segs else segs) ! p)
     = (if addressed p [e] then ''processing'' else seg_status (segs ! p))"
proof (cases "ev_type e = ''content'' \<and> ev_segment_index e = int p")
  case True
  then show ?thesis
    using assms
    by (auto simp: addressed_def nth_update_segments_hit mark_processing_def append_delta_def)
next
  case False
  then show ?thesis
    by (auto simp: addressed_def nth_update_segments_other)
qed

lemma fold_length:
  "length (foldl (\<lambda>s data. if ev_type data = ''content'' then update_segments data s else s)
             segs evs) = length segs"
  by (induction evs arbitrary: segs) (simp_all add: length_update_segments)

lemma fold_polished:
  "p < length segs \<Longrightarrow>
   polished_text
     (foldl (\<lambda>s data. if ev_type data = ''content'' then update_segments data s else s)
        segs evs ! p)
     = (if polish_events p evs = [] then polished_text (segs ! p)
        else Some ((case polished_text (segs ! p) of None \<Rightarrow> [] | Some s \<Rightarrow> s)
                     @ polish_deltas p evs))"
proof (induction evs arbitrary: segs)
  case Nil
  then show ?case by (simp add: polish_events_def)
next
  case (Cons e evs)
  let ?segs1 = "if ev_type e = ''content'' then update_segments e segs else segs"
  have len: "p < length ?segs1"
    using Cons.prems by (simp add: length_update_segments)
  have split: "polish_events p (e # evs) = polish_events p [e] @ polish_events p evs"
    by (simp add: polish_events_def)
  have single: "polish_events p [e] = [] \<or> polish_events p [e] = [e]"
    by (simp add: polish_events_def)
  show ?case
    using Cons.IH [OF len] step_polished [OF Cons.prems, of e] single
    by (auto simp: split polish_deltas_def)
qed

lemma fold_enhanced:
  "p < length segs \<Longrightarrow>
   enhanced_text
     (foldl (\<lambda>s data. if ev_type data = ''content'' then update_segments data s else s)
        segs evs ! p)
     = (if enhance_events p evs = [] then enhanced_text (segs ! p)
        else Some ((case enhanced_text (segs ! p) of None \<Rightarrow> [] | Some s \<Rightarrow> s)
                     @ enhance_deltas p evs))"
proof (induction evs arbitrary: segs)
  case Nil
  then show ?case by (simp add: enhance_events_def)
next
  case (Cons e evs)
  let ?segs1 = "if ev_type e = ''content'' then update_segments e segs else segs"
  have len: "p < length ?segs1"
    using Cons.prems by (simp add: length_update_segments)
  have split: "enhance_events p (e # evs) = enhance_events p [e] @ enhance_events p evs"
    by (simp add: enhance_events_def)
  have single: "enhance_events p [e] = [] \<or> enhance_events p [e] = [e]"
    by (simp add: enhance_events_def)
  show ?case
    using Cons.IH [OF len] step_enhanced [OF Cons.prems, of e] single
    by (auto simp: split enhance_deltas_def)
qed

lemma fold_status:
  "p < length segs \<Longrightarrow>
   seg_status
     (foldl (\<lambda>s data. if ev_type data = ''content'' then update_segments data s else s)
        segs evs ! p)
     = (if addressed p evs then ''processing'' else seg_status (segs ! p))"
proof (induction evs arbitrary: segs)
  case Nil
  then show ?case by (simp add: addressed_def)
next
  case (Cons e evs)
  let ?segs1 = "if ev_type e = ''content'' then update_segments e segs else segs"
  have len: "p < length ?segs1"
    using Cons.prems by (simp add: length_update_segments)
  have split: "addressed p (e # evs) = (addressed p [e] \<or> addressed p evs)"
    by (simp add: addressed_def)
  show ?case
    using Cons.IH [OF len] step_status [OF Cons.prems, of e]
    by (auto simp: split)
qed

text \<open>
  C2 (counterexample). A segment that was loaded with a polished text keeps it: one
  delta \<open>d\<close> on a segment loaded with \<open>abc\<close> leaves \<open>abcd\<close>, which is not the
  concatenation of the deltas.
\<close>

theorem delta_after_loaded_text:
  "polished_text
     (segments (receive_all [demo_delta 0 ''polish'' ''d'']
        (demo_page\<lparr>segments := [(demo_segment 0 ''Intro'')\<lparr>polished_text := Some ''abc''\<rparr>]\<rparr>))
      ! 0) = Some ''abcd''
   \<and> polish_deltas 0 [demo_delta 0 ''polish'' ''d''] = ''d''"
  by (simp add: receive_all_def onmessage_def handleStreamUpdate_def update_segments_def
      segment_found_def emit_def demo_page_def demo_delta_def demo_segment_def append_delta_def
      mark_processing_def or_empty_def js_or_def truthy_def polish_deltas_def polish_events_def
      Let_def)

text \<open>
  C2 (amended). A message of type \<open>content\<close> for the segment at position \<open>p\<close>
  appends its text to that segment's \<open>polished_text\<close> when the stage is \<open>polish\<close> or
  \<open>emotion_polish\<close> and to its \<open>enhanced_text\<close> when the stage is \<open>enhance\<close>, an
  absent text counting as empty. After any sequence of messages each of the two texts is
  untouched when no delta of its stage addressed the segment, and otherwise the text the
  segment was loaded with followed by those deltas in delivery order; for a segment
  loaded without that text it is exactly the concatenation of the deltas, so a single
  delta with the full text leaves exactly the full text.
\<close>

theorem content_events_extend_loaded_text:
  assumes "p < length (segments st)"
  shows "(ev_type data = ''content'' \<and> ev_segment_index data = int p
            \<and> (stage data = ''polish'' \<or> stage data = ''emotion_polish'')
          \<longrightarrow> polished_text (segments (onmessage (Some data) st) ! p)
                = Some ((case polished_text (segments st ! p) of None \<Rightarrow> [] | Some s \<Rightarrow> s)
                          @ content data))
       \<and> (ev_type data = ''content'' \<and> ev_segment_index data = int p \<and> stage data = ''enhance''
          \<longrightarrow> enhanced_text (segments (onmessage (Some data) st) ! p)
                = Some ((case enhanced_text (segments st ! p) of None \<Rightarrow> [] | Some s \<Rightarrow> s)
                          @ content data))
       \<and> polished_text (segments (receive_all evs st) ! p)
           = (if polish_events p evs = [] then polished_text (segments st ! p)
              else Some ((case polished_text (segments st ! p) of None \<Rightarrow> [] | Some s \<Rightarrow> s)
                           @ polish_deltas p evs))
       \<and> enhanced_text (segments (receive_all evs st) ! p)
           = (if enhance_events p evs = [] then enhanced_text (segments st ! p)
              else Some ((case enhanced_text (segments st ! p) of None \<Rightarrow> [] | Some s \<Rightarrow> s)
                           @ enhance_deltas p evs))
       \<and> ((polished_text (segments st ! p) = None \<or> polished_text (segments st ! p) = Some [])
            \<and> polish_events p evs \<noteq> []
          \<longrightarrow> polished_text (segments (receive_all evs st) ! p) = Some (polish_deltas p evs))
       \<and> ((enhanced_text (segments st ! p) = None \<or> enhanced_text (segments st ! p) = Some [])
            \<and> enhance_events p evs \<noteq> []
          \<longrightarrow> enhanced_text (segments (receive_all evs st) ! p) = Some (enhance_deltas p evs))"
proof -
  have one_polish: "ev_type data = ''content'' \<and> ev_segment_index data = int p
            \<and> (stage data = ''polish'' \<or> stage data = ''emotion_polish'')
          \<longrightarrow> polished_text (segments (onmessage (Some data) st) ! p)
                = Some ((case polished_text (segments st ! p) of None \<Rightarrow> [] | Some s \<Rightarrow> s)
                          @ content data)"
    using step_polished [OF assms, of data]
    by (auto simp: segments_onmessage polish_events_def)
  have one_enhance: "ev_type data = ''content'' \<and> ev_segment_index data = int p
            \<and> stage data = ''enhance''
          \<longrightarrow> enhanced_text (segments (onmessage (Some data) st) ! p)
                = Some ((case enhanced_text (segments st ! p) of None \<Rightarrow> [] | Some s \<Rightarrow> s)
                          @ content data)"
    using step_enhanced [OF assms, of data]
    by (auto simp: segments_onmessage enhance_events_def)
  have all_polish: "polished_text (segments (receive_all evs st) ! p)
           = (if polish_events p evs = [] then polished_text (segments st ! p)
              else Some ((case polished_text (segments st ! p) of None \<Rightarrow> [] | Some s \<Rightarrow> s)
                           @ polish_deltas p evs))"
    using fold_polished [OF assms, of evs] by (simp add: segments_receive_all)
  have all_enhance: "enhanced_text (segments (receive_all evs st) ! p)
           = (if enhance_events p evs = [] then enhanced_text (segments st ! p)
              else Some ((case enhanced_text (segments st ! p) of None \<Rightarrow> [] | Some s \<Rightarrow> s)
                           @ enhance_deltas p evs))"
    using fold_enhanced [OF assms, of evs] by (simp add: segments_receive_all)
  have fresh_polish: "(polished_text (segments st ! p) = None
              \<or> polished_text (segments st ! p) = Some [])
            \<and> polish_events p evs \<noteq> []
          \<longrightarrow> polished_text (segments (receive_all evs st) ! p) = Some (polish_deltas p evs)"
    using all_polish by auto
  have fresh_enhance: "(enhanced_text (segments st ! p) = None
              \<or> enhanced_text (segments st ! p) = Some [])
            \<and> enhance_events p evs \<noteq> []
          \<longrightarrow> enhanced_text (segments (receive_all evs st) ! p) = Some (enhance_deltas p evs)"
    using all_enhance by auto
  show ?thesis
    using one_polish one_enhance all_polish all_enhance fresh_polish fresh_enhance
    by (intro conjI)
qed

text \<open>
  A buffered full-text delta on an untouched segment, and a stream in which two of four
  messages carry deltas for the segment.
\<close>

theorem content_events_extend_loaded_text_witness:
  "1 < length (segments demo_page)
   \<and> polished_text (segments (onmessage (Some (demo_delta 1 ''polish'' ''Rewritten body''))
        demo_page) ! 1) = Some ''Rewritten body''
   \<and> enhanced_text (segments (receive_all
        [demo_delta 1 ''enhance'' ''Bet'', demo_delta 0 ''enhance'' ''x'', demo_compressed,
         demo_delta 1 ''enhance'' ''ter''] demo_page) ! 1) = Some ''Better''
   \<and> polished_text (segments (receive_all
        [demo_delta 1 ''enhance'' ''Bet'', demo_delta 0 ''enhance'' ''x'', demo_compressed,
         demo_delta 1 ''enhance'' ''ter''] demo_page) ! 1) = None"
proof -
  have h: "1 < length (segments demo_page)"
    by (simp add: demo_page_def)
  note t = content_events_extend_loaded_text [OF h,
      where data = "demo_delta 1 ''polish'' ''Rewritten body''"
        and evs = "[demo_delta 1 ''enhance'' ''Bet'', demo_delta 0 ''enhance'' ''x'',
                    demo_compressed, demo_delta 1 ''enhance'' ''ter'']"]
  have vals: "polished_text (segments demo_page ! 1) = None"
    "enhanced_text (segments demo_page ! 1) = None"
    by (simp_all add: demo_page_def demo_segment_def)
  have evs: "polish_events 1 [demo_delta 1 ''enhance'' ''Bet'', demo_delta 0 ''enhance'' ''x'',
                    demo_compressed, demo_delta 1 ''enhance'' ''ter''] = []"
    "enhance_deltas 1 [demo_delta 1 ''enhance'' ''Bet'', demo_delta 0 ''enhance'' ''x'',
                    demo_compressed, demo_delta 1 ''enhance'' ''ter''] = ''Better''"
    "enhance_events 1 [demo_delta 1 ''enhance'' ''Bet'', demo_delta 0 ''enhance'' ''x'',
                    demo_compressed, demo_delta 1 ''enhance'' ''ter''] \<noteq> []"
    by (simp_all add: polish_events_def enhance_events_def enhance_deltas_def demo_delta_def
        demo_compressed_def)
  have d: "ev_type (demo_delta 1 ''polish'' ''Rewritten body'') = ''content''"
    "ev_segment_index (demo_delta 1 ''polish'' ''Rewritten body'') = int 1"
    "stage (demo_delta 1 ''polish'' ''Rewritten body'') = ''polish''"
    "content (demo_delta 1 ''polish'' ''Rewritten body'') = ''Rewritten body''"
    by (simp_all add: demo_delta_def)
  show ?thesis
    using h t vals evs d by simp
qed

section \<open>A content event without its segment\<close>

text \<open>
  C10 (counterexample). For the index \<open>"length"\<close>, which names no loaded segment,
  the updater throws on a page with segments; and an event for a missing integer index
  still turns the status of a completed session into \<open>processing\<close>.
\<close>

theorem length_index_raises:
  "update_segments_at LengthName (demo_delta 0 ''polish'' ''x'') (segments demo_page)
     = Inl RangeError
   \<and> map_option status
       (session (handleStreamUpdate (demo_delta 7 ''polish'' ''x'')
          (demo_page\<lparr>session := Some (demo_session ''completed'')\<rparr>)))
     = Some ''processing''"
  by (simp add: update_segments_at_def handleStreamUpdate_def update_session_def emit_def
      demo_page_def demo_session_def Let_def)

text \<open>
  C10 (amended). For a content event whose index is an integer that is negative or not
  below the number of loaded segments, the updater returns the list it was given and
  raises no error, so the segment list stays as it is; the handler logs one console
  warning that names the index, and sets the status of a loaded session to
  \<open>processing\<close>.
\<close>

theorem content_event_for_missing_segment:
  assumes "ev_segment_index data < 0 \<or> int (length (segments st)) \<le> ev_segment_index data"
  shows "update_segments_at (Num (ev_segment_index data)) data (segments st) = Inr (segments st)
       \<and> update_segments data (segments st) = segments st
       \<and> segments (handleStreamUpdate data st) = segments st
       \<and> effects (handleStreamUpdate data st)
           = effects st @ [ConsoleWarn (SegmentNotFound (ev_segment_index data))]
       \<and> session (handleStreamUpdate data st)
           = map_option (\<lambda>s. s\<lparr>status := ''processing''\<rparr>) (session st)"
proof -
  have missing: "\<not> segment_found (ev_segment_index data) (segments st)"
    using assms by (auto simp: segment_found_def)
  have upd: "update_segments data (segments st) = segments st"
    using missing by (simp add: update_segments_def)
  have sess: "update_session (session st)
                = map_option (\<lambda>s. s\<lparr>status := ''processing''\<rparr>) (session st)"
    by (cases "session st") (auto simp: update_session_def)
  show ?thesis
    using missing upd sess
    by (simp add: update_segments_at_def handleStreamUpdate_def emit_def)
qed

theorem content_event_for_missing_segment_witness:
  "segments (handleStreamUpdate (demo_delta (- 1) ''polish'' ''x'') demo_page)
     = segments demo_page
   \<and> update_segments_at (Num 2) (demo_delta 2 ''polish'' ''x'') (segments demo_page)
     = Inr (segments demo_page)
   \<and> effects (handleStreamUpdate (demo_delta 2 ''polish'' ''x'') demo_page)
     = [ConsoleWarn (SegmentNotFound 2)]"
  using content_event_for_missing_segment
      [where st = demo_page and data = "demo_delta (- 1) ''polish'' ''x''"]
    content_event_for_missing_segment
      [where st = demo_page and data = "demo_delta 2 ''polish'' ''x''"]
  by (simp add: demo_page_def demo_delta_def)

section \<open>Segments marked as processing\<close>

lemma filter_at_most_one:
  "(\<forall>j < length xs. j \<noteq> p \<longrightarrow> \<not> P (xs ! j)) \<Longrightarrow> length (filter P xs) \<le> 1"
proof (induction xs arbitrary: p)
  case Nil
  then show ?case by simp
next
  case (Cons x xs)
  show ?case
  proof (cases p)
    case 0
    have "\<forall>y \<in> set xs. \<not> P y"
    proof
      fix y assume "y \<in> set xs"
      then obtain i where "i < length xs" and "xs ! i = y"
        by (auto simp: in_set_conv_nth)
      then show "\<not> P y"
        using Cons.prems [rule_format, of "Suc i"] 0 by simp
    qed
    then have "filter P xs = []"
      by (simp add: filter_empty_conv)
    then show ?thesis by simp
  next
    case (Suc p')
    have x: "\<not> P x"
      using Cons.prems [rule_format, of 0] Suc by simp
    have "\<forall>j < length xs. j \<noteq> p' \<longrightarrow> \<not> P (xs ! j)"
      using Cons.prems Suc by fastforce
    then have "length (filter P xs) \<le> 1" by (rule Cons.IH)
    then show ?thesis using x by simp
  qed
qed

lemma in_process_at_cursor_new:
  "in_process_at_cursor (new_session lens threshold)"
  by (simp add: in_process_at_cursor_def new_session_def)

lemma in_process_at_cursor_step:
  assumes "in_process_at_cursor e"
  shows "in_process_at_cursor (engine_step ev e)"
proof (cases ev)
  case Admit
  then show ?thesis
    using assms by (auto simp: in_process_at_cursor_def)
next
  case Advance
  then show ?thesis
    using assms
    by (auto simp: in_process_at_cursor_def set_state_def nth_list_update)
next
  case StageSucceeded
  then show ?thesis
    using assms
    by (auto simp: in_process_at_cursor_def set_state_def nth_list_update)
next
  case StageFailed
  then show ?thesis
    using assms
    by (auto simp: in_process_at_cursor_def set_state_def nth_list_update)
next
  case StopRequest
  then show ?thesis
    using assms by (auto simp: in_process_at_cursor_def stop_transition_def)
next
  case RetryRequest
  then show ?thesis
    using assms by (auto simp: in_process_at_cursor_def)
qed

lemma in_process_at_cursor_run:
  "in_process_at_cursor e \<Longrightarrow> in_process_at_cursor (run_engine evs e)"
  unfolding run_engine_def
  by (induction evs arbitrary: e) (simp_all add: in_process_at_cursor_step)

lemma in_process_count_le_one:
  assumes "in_process_at_cursor e"
  shows "in_process_count e \<le> 1"
  unfolding in_process_count_def
proof (rule filter_at_most_one [where p = "cursor e"])
  show "\<forall>j < length (eng_segments e). j \<noteq> cursor e \<longrightarrow> \<not> snd (eng_segments e ! j) = InProcess"
    using assms by (auto simp: in_process_at_cursor_def)
qed

text \<open>
  C6 (counterexample). Two segments of one session are in status processing at once in
  the page state after content events for two different segments, since nothing on the
  page takes the mark away again. The session can be processing while no segment is: on
  the page after an event for a missing segment, and in the state machine of the
  specification between two segments.
\<close>

theorem two_segments_processing:
  "count_processing
     (segments (receive_all [demo_delta 0 ''polish'' ''a'', demo_delta 1 ''polish'' ''b'']
        demo_page)) = 2
   \<and> map_option status (session (receive_all [demo_delta 5 ''polish'' ''a''] demo_page))
       = Some ''processing''
   \<and> count_processing (segments (receive_all [demo_delta 5 ''polish'' ''a''] demo_page)) = 0
   \<and> eng_status (run_engine [Admit, Advance, StageSucceeded] (new_session [200, 200] 15))
       = Running
   \<and> in_process_count (run_engine [Admit, Advance, StageSucceeded] (new_session [200, 200] 15))
       = 0"
  by (simp add: receive_all_def onmessage_def handleStreamUpdate_def update_segments_def
      update_session_def segment_found_def emit_def demo_page_def demo_delta_def
      demo_segment_def append_delta_def mark_processing_def count_processing_def Let_def
      run_engine_def new_session_def set_state_def in_process_count_def)

text \<open>
  C6 (amended). In the session state machine of the specification at most one segment
  of a session is processing in every reachable state. On the page, the messages of the
  event stream keep the number of segments, and afterwards a segment is in status
  processing when a content event addressed its position and has the status it was
  loaded with otherwise; so at most one segment of the page state is processing as long
  as all content events since loading address the same position and no segment at another
  position was loaded as processing.
\<close>

theorem content_events_mark_addressed_segments:
  "length (segments (receive_all evs st)) = length (segments st)
   \<and> (\<forall>j < length (segments st).
        seg_status (segments (receive_all evs st) ! j)
          = (if addressed j evs then ''processing'' else seg_status (segments st ! j)))
   \<and> ((\<forall>e \<in> set evs. ev_type e = ''content'' \<longrightarrow> ev_segment_index e = int p)
        \<and> (\<forall>j < length (segments st). j \<noteq> p
              \<longrightarrow> seg_status (segments st ! j) \<noteq> ''processing'')
      \<longrightarrow> count_processing (segments (receive_all evs st)) \<le> 1)
   \<and> in_process_count (run_engine events (new_session lens threshold)) \<le> 1"
proof -
  have len: "length (segments (receive_all evs st)) = length (segments st)"
    by (simp add: segments_receive_all fold_length)
  have marks: "\<forall>j < length (segments st).
        seg_status (segments (receive_all evs st) ! j)
          = (if addressed j evs then ''processing'' else seg_status (segments st ! j))"
    by (simp add: segments_receive_all fold_status)
  have one: "count_processing (segments (receive_all evs st)) \<le> 1"
    if same: "\<forall>e \<in> set evs. ev_type e = ''content'' \<longrightarrow> ev_segment_index e = int p"
      and idle: "\<forall>j < length (segments st). j \<noteq> p
              \<longrightarrow> seg_status (segments st ! j) \<noteq> ''processing''"
    unfolding count_processing_def
  proof (rule filter_at_most_one [where p = p])
    show "\<forall>j < length (segments (receive_all evs st)). j \<noteq> p
            \<longrightarrow> \<not> seg_status (segments (receive_all evs st) ! j) = ''processing''"
    proof (intro allI impI)
      fix j assume j: "j < length (segments (receive_all evs st))" and ne: "j \<noteq> p"
      have "\<not> addressed j evs"
        using same ne by (auto simp: addressed_def list_ex_iff)
      then show "\<not> seg_status (segments (receive_all evs st) ! j) = ''processing''"
        using marks idle j ne len by simp
    qed
  qed
  have server: "in_process_count (run_engine events (new_session lens threshold)) \<le> 1"
    by (intro in_process_count_le_one in_process_at_cursor_run in_process_at_cursor_new)
  show ?thesis
    using len marks one server by blast
qed

theorem content_events_mark_addressed_segments_witness:
  "seg_status (segments (receive_all
       [demo_delta 1 ''polish'' ''a'', demo_compressed, demo_delta 1 ''enhance'' ''b'']
       demo_page) ! 1) = ''processing''
   \<and> seg_status (segments (receive_all
       [demo_delta 1 ''polish'' ''a'', demo_compressed, demo_delta 1 ''enhance'' ''b'']
       demo_page) ! 0) = ''pending''
   \<and> count_processing (segments (receive_all
       [demo_delta 1 ''polish'' ''a'', demo_compressed, demo_delta 1 ''enhance'' ''b'']
       demo_page)) \<le> 1
   \<and> in_process_count (run_engine [Admit, Advance, Advance] (new_session [5, 200, 200] 15)) = 1"
proof -
  let ?evs = "[demo_delta 1 ''polish'' ''a'', demo_compressed, demo_delta 1 ''enhance'' ''b'']"
  note t = content_events_mark_addressed_segments
      [where evs = ?evs and st = demo_page and p = 1 and events = "[Admit, Advance, Advance]"
         and lens = "[5, 200, 200]" and threshold = 15]
  have same: "\<forall>e \<in> set ?evs. ev_type e = ''content'' \<longrightarrow> ev_segment_index e = int 1"
    by (simp add: demo_delta_def demo_compressed_def)
  have idle: "\<forall>j < length (segments demo_page). j \<noteq> 1
              \<longrightarrow> seg_status (segments demo_page ! j) \<noteq> ''processing''"
    by (simp add: demo_page_def demo_segment_def nth_Cons')
  have a1: "addressed 1 ?evs" and a0: "\<not> addressed 0 ?evs"
    by (simp_all add: addressed_def demo_delta_def demo_compressed_def)
  have l: "length (segments demo_page) = 2"
    and s0: "seg_status (segments demo_page ! 0) = ''pending''"
    by (simp_all add: demo_page_def demo_segment_def)
  have c1: "seg_status (segments (receive_all ?evs demo_page) ! 1) = ''processing''"
    using t a1 l by simp
  have c0: "seg_status (segments (receive_all ?evs demo_page) ! 0) = ''pending''"
    using t a0 l s0 by simp
  have c2: "count_processing (segments (receive_all ?evs demo_page)) \<le> 1"
    using t same idle by blast
  have c3: "in_process_count (run_engine [Admit, Advance, Advance] (new_session [5, 200, 200] 15))
              = 1"
    by (simp add: run_engine_def new_session_def set_state_def in_process_count_def)
  show ?thesis using c0 c1 c2 c3 by simp
qed

section \<open>The history-compression event\<close>

lemma history_compressed_frame:
  assumes "ev_type data = ''history_compressed''"
  shows "onmessage (Some data) st = st\<lparr>effects := effects st @ [ConsoleError SseDataError]\<rparr>"
  using assms by (simp add: onmessage_def toast_info_def toast_methods_def)

text \<open>
  C8. A message of type \<open>history_compressed\<close> shows no notification: the call of
  \<open>toast.info\<close> throws, and the handler logs the console error of its \<open>catch\<close>
  clause. Segments and session stay as they are.
\<close>

theorem history_compressed_shows_no_toast:
  "effects (onmessage (Some demo_compressed) demo_page) = [ConsoleError SseDataError]
   \<and> segments (onmessage (Some demo_compressed) demo_page) = segments demo_page
   \<and> session (onmessage (Some demo_compressed) demo_page) = session demo_page"
  by (simp add: onmessage_def toast_info_def toast_methods_def demo_compressed_def demo_page_def)

section \<open>The stop action\<close>

text \<open>
  C7. The stop button is rendered exactly for the statuses \<open>processing\<close> and
  \<open>queued\<close>, so not for \<open>completed\<close>, \<open>failed\<close> or \<open>stopped\<close>; once the user
  confirms, the handler sends the stop request for the session of the page, and it does
  nothing when the user declines. The stop transition of the specification takes a
  processing or queued session to \<open>stopped\<close>, and after the reload that follows a
  successful stop the page holds the stopped session and renders the stopped badge
  instead of the button.
\<close>

theorem stop_offered_iff_processing_or_queued:
  "(StopButton \<in> set (nav_items s)) = (s = ''processing'' \<or> s = ''queued'')
   \<and> StopButton \<notin> set (nav_items ''completed'')
   \<and> StopButton \<notin> set (nav_items ''failed'')
   \<and> StopButton \<notin> set (nav_items ''stopped'')
   \<and> (\<exists>items. render_nav st = Some items \<and> StopButton \<in> set items)
       = (\<exists>x. session st = Some x \<and> (status x = ''processing'' \<or> status x = ''queued''))
   \<and> (\<exists>rest. effects (handleStop True stopped detail st)
                = effects st @ ApiCall (StopSession (sessionId st)) # rest)
   \<and> handleStop False stopped detail st = st
   \<and> status_name (stop_transition Running) = ''stopped''
   \<and> status_name (stop_transition Queued) = ''stopped''
   \<and> (b = Running \<or> b = Queued
       \<longrightarrow> session (handleStop True (Resolved u)
                      (Resolved (x\<lparr>status := status_name (stop_transition b)\<rparr>, segs)) st)
             = Some (x\<lparr>status := ''stopped''\<rparr>)
           \<and> render_nav (handleStop True (Resolved u)
                      (Resolved (x\<lparr>status := status_name (stop_transition b)\<rparr>, segs)) st)
             = Some [StoppedBadge])"
proof -
  have button: "(StopButton \<in> set (nav_items t)) = (t = ''processing'' \<or> t = ''queued'')" for t
    by (simp add: nav_items_def)
  have rendered: "(\<exists>items. render_nav st = Some items \<and> StopButton \<in> set items)
       = (\<exists>x. session st = Some x \<and> (status x = ''processing'' \<or> status x = ''queued''))"
    by (cases "session st") (simp_all add: render_nav_def button)
  have request: "\<exists>rest. effects (handleStop True stopped detail st)
                = effects st @ ApiCall (StopSession (sessionId st)) # rest"
    by (cases stopped; cases detail)
       (auto simp: handleStop_def loadSessionDetail_def emit_def Let_def split: prod.splits)
  have declined: "handleStop False stopped detail st = st"
    by (simp add: handleStop_def)
  have names: "status_name (stop_transition Running) = ''stopped''"
    "status_name (stop_transition Queued) = ''stopped''"
    by (simp_all add: status_name_def stop_transition_def)
  have reload: "b = Running \<or> b = Queued
       \<longrightarrow> session (handleStop True (Resolved u)
                      (Resolved (x\<lparr>status := status_name (stop_transition b)\<rparr>, segs)) st)
             = Some (x\<lparr>status := ''stopped''\<rparr>)
           \<and> render_nav (handleStop True (Resolved u)
                      (Resolved (x\<lparr>status := status_name (stop_transition b)\<rparr>, segs)) st)
             = Some [StoppedBadge]"
    by (auto simp: handleStop_def loadSessionDetail_def emit_def Let_def render_nav_def
        nav_items_def status_name_def stop_transition_def)
  show ?thesis
    using rendered request declined names reload by (simp add: button)
qed

theorem stop_offered_witness:
  "StopButton \<in> set (nav_items ''processing'') \<and> StopButton \<in> set (nav_items ''queued'')
   \<and> map_option status
        (session (handleStop True (Resolved ())
           (Resolved ((demo_session ''processing'')\<lparr>status := status_name (stop_transition Running)\<rparr>,
                      None)) demo_page))
       = Some ''stopped''"
proof -
  note t = stop_offered_iff_processing_or_queued
      [where b = Running and x = "demo_session ''processing''" and st = demo_page
         and u = "()" and segs = None]
  have a: "StopButton \<in> set (nav_items ''processing'')"
    "StopButton \<in> set (nav_items ''queued'')"
    using stop_offered_iff_processing_or_queued [where s = "''processing''"]
      stop_offered_iff_processing_or_queued [where s = "''queued''"]
    by simp_all
  have b: "session (handleStop True (Resolved ())
           (Resolved ((demo_session ''processing'')\<lparr>status := status_name (stop_transition Running)\<rparr>,
                      None)) demo_page)
        = Some ((demo_session ''processing'')\<lparr>status := ''stopped''\<rparr>)"
    using t by blast
  show ?thesis using a b by simp
qed

section \<open>Submitting a blank text\<close>

lemma js_trim_empty_iff:
  "js_trim t = [] \<longleftrightarrow> (\<forall>c \<in> set t. js_whitespace c)"
proof -
  have inner: "(\<forall>x \<in> set (dropWhile js_whitespace t). js_whitespace x)
                 \<longleftrightarrow> dropWhile js_whitespace t = []"
  proof
    assume all: "\<forall>x \<in> set (dropWhile js_whitespace t). js_whitespace x"
    show "dropWhile js_whitespace t = []"
    proof (rule ccontr)
      assume ne: "dropWhile js_whitespace t \<noteq> []"
      then have "\<not> js_whitespace (hd (dropWhile js_whitespace t))"
        by (rule hd_dropWhile)
      moreover have "hd (dropWhile js_whitespace t) \<in> set (dropWhile js_whitespace t)"
        using ne by simp
      ultimately show False using all by blast
    qed
  next
    assume e: "dropWhile js_whitespace t = []"
    show "\<forall>x \<in> set (dropWhile js_whitespace t). js_whitespace x"
      unfolding e by simp
  qed
  have "js_trim t = [] \<longleftrightarrow>
          (\<forall>x \<in> set (dropWhile js_whitespace t). js_whitespace x)"
    by (simp add: js_trim_def dropWhile_eq_Nil_conv)
  also have "\<dots> \<longleftrightarrow> dropWhile js_whitespace t = []"
    by (rule inner)
  also have "\<dots> \<longleftrightarrow> (\<forall>c \<in> set t. js_whitespace c)"
    by (simp only: dropWhile_eq_Nil_conv)
  finally show ?thesis .
qed

text \<open>
  C3. When the text is empty or holds only whitespace, the submit handler shows the
  error toast and returns: no request is sent, no active session is set and the session
  list stays as it is.
\<close>

theorem blank_submission_rejected:
  assumes "\<forall>c \<in> set (input_text st). js_whitespace c"
  shows "handleStartOptimization started st = emit [ToastError EnterText] st
       \<and> effects (handleStartOptimization started st) = effects st @ [ToastError EnterText]
       \<and> activeSession (handleStartOptimization started st) = activeSession st
       \<and> sessions (handleStartOptimization started st) = sessions st"
  using assms js_trim_empty_iff [of "input_text st"]
  by (simp add: handleStartOptimization_def emit_def)

theorem blank_submission_witness:
  "js_trim [0x20, 0x3000, 0x0A] = []
   \<and> handleStartOptimization (Resolved ''s2'') (demo_workspace [0x20, 0x3000, 0x0A])
       = emit [ToastError EnterText] (demo_workspace [0x20, 0x3000, 0x0A])"
  using blank_submission_rejected
    [where st = "demo_workspace [0x20, 0x3000, 0x0A]" and started = "Resolved ''s2''"]
  by (simp add: demo_workspace_def js_whitespace_def js_trim_def)

section \<open>Retrying a session\<close>

text \<open>
  C4. For a session whose status is not \<open>failed\<close> (in particular \<open>completed\<close>,
  \<open>stopped\<close>, \<open>processing\<close> or \<open>queued\<close>) both retry handlers return without any effect
  and without a retry request, and the list item shows no retry button.
\<close>

theorem retry_only_when_failed:
  assumes "status sess \<noteq> ''failed''"
  shows "handleRetrySegment confirmRetry retried listed sess st = st
       \<and> SessionItem_handleRetry onRetry sess st = st
       \<and> SessionItem_handleRetry (handleRetrySegment confirmRetry retried listed) sess st = st
       \<and> RetryButton \<notin> set (item_buttons (status sess))"
  using assms
  by (simp add: handleRetrySegment_def SessionItem_handleRetry_def item_buttons_def)

theorem retry_only_when_failed_witness:
  "handleRetrySegment True (Resolved None) (Resolved []) (demo_session ''stopped'')
     (demo_workspace []) = demo_workspace []
   \<and> handleRetrySegment True (Resolved None) (Resolved []) (demo_session ''completed'')
     (demo_workspace []) = demo_workspace []
   \<and> handleRetrySegment True (Resolved None) (Resolved []) (demo_session ''processing'')
     (demo_workspace []) = demo_workspace []
   \<and> handleRetrySegment True (Resolved None) (Resolved []) (demo_session ''queued'')
     (demo_workspace []) = demo_workspace []"
  using retry_only_when_failed [where sess = "demo_session ''stopped''"]
    retry_only_when_failed [where sess = "demo_session ''completed''"]
    retry_only_when_failed [where sess = "demo_session ''processing''"]
    retry_only_when_failed [where sess = "demo_session ''queued''"]
  by (simp add: demo_session_def)

section \<open>The admission ceiling\<close>

lemma within_ceiling_step:
  assumes "within_ceiling a"
    and "case op of SetCeiling m \<Rightarrow> length (active a) \<le> m | _ \<Rightarrow> True"
  shows "within_ceiling (apply_op op a)"
proof (cases op)
  case (Submit s)
  then show ?thesis using assms(1) by (simp add: within_ceiling_def submit_def)
next
  case (Release s)
  then show ?thesis
    using assms(1)
    by (auto simp: within_ceiling_def release_def length_remove1
        dest: length_pos_if_in_set split: list.splits)
next
  case (Cancel s)
  then show ?thesis using assms(1) by (simp add: within_ceiling_def cancel_def)
next
  case (SetCeiling m)
  then show ?thesis
    using assms(2) by (simp add: within_ceiling_def set_ceiling_def Let_def)
qed

lemma within_ceiling_run:
  "within_ceiling a \<Longrightarrow> ceiling_respected ops a \<Longrightarrow> k \<le> length ops \<Longrightarrow>
   within_ceiling (run_ops (take k ops) a)"
proof (induction ops arbitrary: a k)
  case Nil
  then show ?case by (simp add: run_ops_def)
next
  case (Cons op ops)
  show ?case
  proof (cases k)
    case 0
    then show ?thesis using Cons.prems(1) by (simp add: run_ops_def)
  next
    case (Suc k')
    have step: "within_ceiling (apply_op op a)"
      using Cons.prems(1,2) by (intro within_ceiling_step) simp_all
    have "within_ceiling (run_ops (take k' ops) (apply_op op a))"
      using Cons.IH [OF step] Cons.prems(2,3) Suc by simp
    then show ?thesis using Suc by (simp add: run_ops_def)
  qed
qed

text \<open>
  C5 (counterexample). The number of processing sessions can exceed the configured
  ceiling in the model of section 4.1: lowering the ceiling to one while two sessions
  are processing pre-empts neither.
\<close>

theorem admission_ceiling_counterexample:
  "\<not> within_ceiling (run_ops [Submit ''a'', Submit ''b'', SetCeiling 1] (idle_controller 2))"
  by (simp add: run_ops_def idle_controller_def submit_def set_ceiling_def within_ceiling_def)

text \<open>
  C5 (amended). Starting within the ceiling, and as long as the ceiling is never
  set below the number of sessions processing at that moment, every state of a run of
  submissions, releases, cancellations and ceiling changes is within the ceiling; a
  submission that finds all slots occupied is appended to the wait queue and starts no
  processing.
\<close>

theorem admission_within_unlowered_ceiling:
  assumes "within_ceiling a" and "ceiling_respected ops a"
  shows "(\<forall>k \<le> length ops. within_ceiling (run_ops (take k ops) a))
       \<and> (max_count a \<le> length (active a) \<longrightarrow>
            active (submit s a) = active a \<and> queue (submit s a) = queue a @ [s])"
  using assms within_ceiling_run [OF assms]
  by (simp add: submit_def)

theorem admission_within_unlowered_ceiling_witness:
  "within_ceiling (idle_controller 1)
   \<and> ceiling_respected [Submit ''a'', Submit ''b'', Release ''a'', SetCeiling 2]
       (idle_controller 1)
   \<and> within_ceiling
       (run_ops [Submit ''a'', Submit ''b'', Release ''a'', SetCeiling 2] (idle_controller 1))
   \<and> queue (submit ''b'' (submit ''a'' (idle_controller 1))) = [''b'']"
proof -
  let ?ops = "[Submit ''a'', Submit ''b'', Release ''a'', SetCeiling 2]"
  have h1: "within_ceiling (idle_controller 1)"
    by (simp add: within_ceiling_def idle_controller_def)
  have h2: "ceiling_respected ?ops (idle_controller 1)"
    by (simp add: idle_controller_def submit_def release_def)
  note t = admission_within_unlowered_ceiling [OF h1 h2]
  have "within_ceiling (run_ops (take (length ?ops) ?ops) (idle_controller 1))"
    using t by blast
  then have h3: "within_ceiling (run_ops ?ops (idle_controller 1))"
    by simp
  have h4: "queue (submit ''b'' (submit ''a'' (idle_controller 1))) = [''b'']"
    by (simp add: idle_controller_def submit_def)
  show ?thesis using h1 h2 h3 h4 by simp
qed

end
